theory Spec2Isabelle
  imports Main "HOL-Library.Word"
begin

section \<open>readmems: the diagnostic session controller of rosco\<close>

text \<open>
  A shallow embedding of \<^verbatim>\<open>src/readmems.c\<close>. The program is single-threaded and
  deterministic, so one run is fixed by what its surroundings answer: the library
  librosco, the serial device, the allocator and standard input. These answers are the
  fields of the record \<open>env\<close>, each a stream indexed by the number of earlier calls of
  the same function. What the program does to its surroundings, in order, is the list
  of \<open>event\<close>s it returns.
\<close>

subsection \<open>Characters and C strings\<close>

type_synonym u8 = "8 word"

abbreviation NL :: char where "NL \<equiv> CHR 0x0A"
abbreviation CR :: char where "CR \<equiv> CHR 0x0D"
abbreviation NUL :: char where "NUL \<equiv> CHR 0x00"

text \<open>The C string held by a buffer: its bytes up to the first NUL.\<close>

definition cstr :: "string \<Rightarrow> string" where
  "cstr buf = takeWhile (\<lambda>c. c \<noteq> NUL) buf"

definition ord :: "char \<Rightarrow> nat" where
  "ord c = of_char c"

definition code_of :: "char \<Rightarrow> int" where
  "code_of c = int (ord c)"

fun strncmp :: "string \<Rightarrow> string \<Rightarrow> nat \<Rightarrow> int" where
  "strncmp a b 0 = 0"
| "strncmp [] [] (Suc n) = 0"
| "strncmp [] (y # b) (Suc n) = - code_of y"
| "strncmp (x # a) [] (Suc n) = code_of x"
| "strncmp (x # a) (y # b) (Suc n) =
     (if x = y then strncmp a b n else code_of x - code_of y)"

fun strcmp :: "string \<Rightarrow> string \<Rightarrow> int" where
  "strcmp [] [] = 0"
| "strcmp [] (y # b) = - code_of y"
| "strcmp (x # a) [] = code_of x"
| "strcmp (x # a) (y # b) = (if x = y then strcmp a b else code_of x - code_of y)"

definition tolower :: "char \<Rightarrow> char" where
  "tolower c =
     (if 65 \<le> ord c \<and> ord c \<le> 90 then char_of (ord c + 32) else c)"

fun strcasecmp :: "string \<Rightarrow> string \<Rightarrow> int" where
  "strcasecmp [] [] = 0"
| "strcasecmp [] (y # b) = - code_of (tolower y)"
| "strcasecmp (x # a) [] = code_of (tolower x)"
| "strcasecmp (x # a) (y # b) =
     (if tolower x = tolower y then strcasecmp a b
      else code_of (tolower x) - code_of (tolower y))"

definition isspace :: "char \<Rightarrow> bool" where
  "isspace c \<longleftrightarrow> c \<in> {CHR '' '', CHR 0x09, CHR 0x0A, CHR 0x0B, CHR 0x0C, CHR 0x0D}"

text \<open>The value of a digit in the bases up to 36, as \<^verbatim>\<open>strtoul\<close> reads it.\<close>

definition digit_val :: "char \<Rightarrow> nat option" where
  "digit_val c =
     (if 48 \<le> ord c \<and> ord c \<le> 57 then Some (ord c - 48)
      else if 97 \<le> ord c \<and> ord c \<le> 122 then Some (ord c - 87)
      else if 65 \<le> ord c \<and> ord c \<le> 90 then Some (ord c - 55)
      else None)"

fun digits_val :: "nat \<Rightarrow> nat \<Rightarrow> string \<Rightarrow> nat" where
  "digits_val base acc [] = acc"
| "digits_val base acc (c # s) =
     (case digit_val c of
        None \<Rightarrow> acc
      | Some d \<Rightarrow> if d < base then digits_val base (acc * base + d) s else acc)"

definition is_digit_of :: "nat \<Rightarrow> string \<Rightarrow> bool" where
  "is_digit_of base s =
     (case s of [] \<Rightarrow> False
      | c # _ \<Rightarrow> (case digit_val c of None \<Rightarrow> False | Some d \<Rightarrow> d < base))"

definition has_0x :: "string \<Rightarrow> bool" where
  "has_0x s =
     (case s of
        c0 # c1 # r \<Rightarrow> c0 = CHR ''0'' \<and> (c1 = CHR ''x'' \<or> c1 = CHR ''X'') \<and> is_digit_of 16 r
      | _ \<Rightarrow> False)"

definition ULONG_MAX :: nat where
  "ULONG_MAX = 2 ^ 64 - 1"

text \<open>
  \<^verbatim>\<open>strtoul(s, NULL, base)\<close> for base 0 and base 16, with a 64-bit \<^verbatim>\<open>unsigned long\<close>:
  white space is skipped, a sign is accepted, base 16 accepts a \<^verbatim>\<open>0x\<close> prefix and base 0
  chooses among hexadecimal, octal and decimal by the prefix. A string with no digits
  gives 0, a value beyond the type gives \<^verbatim>\<open>ULONG_MAX\<close>, and a minus sign negates in the
  unsigned type.
\<close>

definition strtoul :: "string \<Rightarrow> nat \<Rightarrow> nat" where
  "strtoul s base =
     (let s1 = dropWhile isspace s;
          neg = (s1 \<noteq> [] \<and> hd s1 = CHR ''-'');
          s2 = (if s1 \<noteq> [] \<and> (hd s1 = CHR ''-'' \<or> hd s1 = CHR ''+'') then tl s1 else s1);
          b = (if base = 0
               then (if has_0x s2 then 16
                     else if s2 \<noteq> [] \<and> hd s2 = CHR ''0'' then 8 else 10)
               else base);
          s3 = (if b = 16 \<and> has_0x s2 then drop 2 s2 else s2);
          v = digits_val b 0 s3
      in if ULONG_MAX < v then ULONG_MAX
         else if neg then (2 ^ 64 - v) mod 2 ^ 64
         else v)"

subsection \<open>Formatting\<close>

definition hex_digit :: "nat \<Rightarrow> char" where
  "hex_digit n = (if n < 10 then char_of (48 + n) else char_of (55 + n))"

text \<open>\<^verbatim>\<open>printf("%02X ", b)\<close> for a byte.\<close>

definition hex2 :: "u8 \<Rightarrow> string" where
  "hex2 b = [hex_digit (unat b div 16), hex_digit (unat b mod 16), CHR '' '']"

text \<open>\<^verbatim>\<open>printf("%d", n)\<close> and \<^verbatim>\<open>printf("%u", n)\<close> for a number that is not negative.\<close>

fun decimal :: "nat \<Rightarrow> string" where
  "decimal n = (if n < 10 then [char_of (48 + n)] else decimal (n div 10) @ [char_of (48 + n mod 10)])"

subsection \<open>The surroundings of a run\<close>

datatype actuator_cmd =
    MEMS_PTCRelayOn | MEMS_PTCRelayOff
  | MEMS_FuelPumpOn | MEMS_FuelPumpOff
  | MEMS_CloseIAC | MEMS_OpenIAC
  | MEMS_ACRelayOn | MEMS_ACRelayOff
  | MEMS_FireCoil | MEMS_TestInjectors

text \<open>
  What \<^verbatim>\<open>read(fd, buffer, 1)\<close> gives \<^verbatim>\<open>readserial\<close>: a failure (the return value -1,
  also what the WIN32 branch returns when no byte came), no byte (0), or one byte (1).
\<close>

datatype read_result = ReadError | ReadNone | ReadByte u8

text \<open>
  The answers of the surroundings. \<open>lib_test_actuator E k c\<close> is what the call number
  \<open>k\<close> of \<^verbatim>\<open>mems_test_actuator\<close> returns when it is given the command \<open>c\<close>: the
  success flag, and the byte stored through the third argument if one is stored.
  librosco and \<^verbatim>\<open>rosco.h\<close> are not part of the sources: the telemetry record is the type
  variable \<open>'d\<close> and the text that \<^verbatim>\<open>printf\<close> makes of its twelve fields is the field
  \<open>fmt_data\<close>; a raw frame is the list of the bytes of its struct.
\<close>

record 'd env =
  lib_version :: "nat \<times> nat \<times> nat"
  lib_connect :: bool
  lib_init_link :: "u8 list option"
  lib_read :: "nat \<Rightarrow> 'd option"
  fmt_data :: "'d \<Rightarrow> string"
  lib_read_raw :: "nat \<Rightarrow> (u8 list \<times> u8 list) option"
  lib_read_iac_position :: "bool \<times> u8 option"
  lib_test_actuator :: "nat \<Rightarrow> actuator_cmd \<Rightarrow> bool \<times> u8 option"
  malloc_ok :: bool
  stdin :: string
  sys_write :: "nat \<Rightarrow> u8 \<Rightarrow> int"
  sys_read :: "nat \<Rightarrow> read_result"

text \<open>
  What the program does, in order. \<open>Serial_read off\<close> is a call of \<^verbatim>\<open>readserial\<close> with
  the address \<^verbatim>\<open>response_buffer + off\<close>.
\<close>

datatype event =
    Stdout string
  | Lib_get_version | Lib_init | Lib_connect string | Lib_init_link
  | Lib_read | Lib_read_raw | Lib_read_iac_position
  | Lib_test_actuator actuator_cmd
  | Lib_disconnect | Lib_cleanup
  | Sleep nat
  | Malloc nat | Free
  | Serial_write u8
  | Serial_read int

text \<open>A pointer argument that the callee may or may not store through.\<close>

definition stored :: "u8 \<Rightarrow> u8 option \<Rightarrow> u8" where
  "stored old out = (case out of None \<Rightarrow> old | Some b \<Rightarrow> b)"

subsection \<open>The actuator tests\<close>

text \<open>
  \<^verbatim>\<open>case MC_PTC\<close>, \<^verbatim>\<open>case MC_FuelPump\<close> and \<^verbatim>\<open>case MC_AC\<close>: the same three lines with
  their own pair of commands. \<open>success\<close> is \<^verbatim>\<open>false\<close> when the switch is entered.
\<close>

definition on_off_test ::
  "'d env \<Rightarrow> actuator_cmd \<Rightarrow> actuator_cmd \<Rightarrow> event list \<Rightarrow> bool \<times> event list" where
  "on_off_test E on off tr =
     (if fst (lib_test_actuator E 0 on)
      then (fst (lib_test_actuator E 1 off),
            tr @ [Lib_test_actuator on, Sleep 2, Lib_test_actuator off])
      else (False, tr @ [Lib_test_actuator on]))"

text \<open>\<^verbatim>\<open>case MC_Coil\<close> and \<^verbatim>\<open>case MC_Injectors\<close>.\<close>

definition single_test :: "'d env \<Rightarrow> actuator_cmd \<Rightarrow> event list \<Rightarrow> bool \<times> event list" where
  "single_test E c tr = (fst (lib_test_actuator E 0 c), tr @ [Lib_test_actuator c])"

text \<open>
  \<^verbatim>\<open>case MC_IAC_Close\<close>: the do-while loop. \<open>k\<close> counts the calls made so far; the
  result is \<open>success\<close>, the number of calls, \<open>readval\<close>, \<open>iac_limit_count\<close> and the
  events. The loop has no bound of its own, so it is a partial function: \<open>None\<close> is a
  run that never leaves it.
\<close>

partial_function (option) iac_close_loop ::
  "'d env \<Rightarrow> nat \<Rightarrow> u8 \<Rightarrow> u8 \<Rightarrow> event list \<Rightarrow> (bool \<times> nat \<times> u8 \<times> u8 \<times> event list) option"
where
  "iac_close_loop E k readval iac_limit_count tr =
     (let success = fst (lib_test_actuator E k MEMS_CloseIAC);
          readval' = stored readval (snd (lib_test_actuator E k MEMS_CloseIAC));
          tr' = tr @ [Lib_test_actuator MEMS_CloseIAC];
          iac_limit_count' =
            (if success \<and> readval' = 0x00 then iac_limit_count - 1 else iac_limit_count)
      in if success \<and> iac_limit_count' \<noteq> 0
         then iac_close_loop E (Suc k) readval' iac_limit_count' tr'
         else Some (success, Suc k, readval', iac_limit_count', tr'))"

text \<open>\<^verbatim>\<open>case MC_IAC_Open\<close>: the do-while loop.\<close>

partial_function (option) iac_open_loop ::
  "'d env \<Rightarrow> nat \<Rightarrow> u8 \<Rightarrow> event list \<Rightarrow> (bool \<times> nat \<times> u8 \<times> event list) option"
where
  "iac_open_loop E k readval tr =
     (let success = fst (lib_test_actuator E k MEMS_OpenIAC);
          readval' = stored readval (snd (lib_test_actuator E k MEMS_OpenIAC));
          tr' = tr @ [Lib_test_actuator MEMS_OpenIAC]
      in if success \<and> readval' < 0xB4
         then iac_open_loop E (Suc k) readval' tr'
         else Some (success, Suc k, readval', tr'))"

text \<open>\<^verbatim>\<open>case MC_Read_IAC\<close>.\<close>

definition read_iac :: "'d env \<Rightarrow> u8 \<Rightarrow> event list \<Rightarrow> bool \<times> event list" where
  "read_iac E readval tr =
     (if fst (lib_read_iac_position E)
      then (True, tr @ [Lib_read_iac_position,
              Stdout (''0x'' @ take 2 (hex2 (stored readval (snd (lib_read_iac_position E)))) @ [NL])])
      else (False, tr @ [Lib_read_iac_position]))"

subsection \<open>The telemetry loops\<close>

text \<open>
  \<^verbatim>\<open>read_loop_count\<close> is an \<^verbatim>\<open>int\<close> of 32 bits: an integer here, brought back into the
  range of the type after each operation.
\<close>

definition int32 :: "int \<Rightarrow> int" where
  "int32 v = (v + 2 ^ 31) mod 2 ^ 32 - 2 ^ 31"

text \<open>
  The loop condition \<^verbatim>\<open>read_inf || (read_loop_count-- > 0)\<close>: its value and the counter
  after it. The counter is left alone when \<^verbatim>\<open>read_inf\<close> holds.
\<close>

definition loop_cond :: "bool \<Rightarrow> int \<Rightarrow> bool \<times> int" where
  "loop_cond read_inf read_loop_count =
     (if read_inf then (True, read_loop_count)
      else (read_loop_count > 0, int32 (read_loop_count - 1)))"

text \<open>The body of the loop of \<^verbatim>\<open>case MC_Read\<close>, at the call number \<open>k\<close> of \<^verbatim>\<open>mems_read\<close>.\<close>

definition read_body :: "'d env \<Rightarrow> nat \<Rightarrow> bool \<Rightarrow> event list \<Rightarrow> bool \<times> event list" where
  "read_body E k success tr =
     (case lib_read E k of
        Some d \<Rightarrow> (True, tr @ [Lib_read, Stdout (fmt_data E d)])
      | None \<Rightarrow> (success, tr @ [Lib_read]))"

partial_function (option) read_loop ::
  "'d env \<Rightarrow> bool \<Rightarrow> int \<Rightarrow> nat \<Rightarrow> bool \<Rightarrow> event list \<Rightarrow> (bool \<times> nat \<times> event list) option"
where
  "read_loop E read_inf read_loop_count k success tr =
     (if fst (loop_cond read_inf read_loop_count)
      then read_loop E read_inf (snd (loop_cond read_inf read_loop_count)) (Suc k)
             (fst (read_body E k success tr)) (snd (read_body E k success tr))
      else Some (success, k, tr))"

text \<open>
  The two printing loops of \<^verbatim>\<open>case MC_Read_Raw\<close> count with \<^verbatim>\<open>uint8_t bufidx\<close> up to the
  size of the struct: a struct of 256 bytes or more would keep \<open>bufidx\<close> below its
  size for ever, which is the value \<open>None\<close>.
\<close>

definition print_frame :: "string \<Rightarrow> u8 list \<Rightarrow> event list option" where
  "print_frame label frame =
     (if length frame < 256
      then Some ([Stdout label] @ map (\<lambda>b. Stdout (hex2 b)) frame @ [Stdout [NL]])
      else None)"

definition read_raw_body ::
  "'d env \<Rightarrow> nat \<Rightarrow> bool \<Rightarrow> event list \<Rightarrow> (bool \<times> event list) option" where
  "read_raw_body E k success tr =
     (case lib_read_raw E k of
        Some (frame80, frame7d) \<Rightarrow>
          (case print_frame ''80: '' frame80 of
             None \<Rightarrow> None
           | Some p80 \<Rightarrow>
               (case print_frame ''7D: '' frame7d of
                  None \<Rightarrow> None
                | Some p7d \<Rightarrow> Some (True, tr @ [Lib_read_raw] @ p80 @ p7d)))
      | None \<Rightarrow> Some (success, tr @ [Lib_read_raw]))"

partial_function (option) read_raw_loop ::
  "'d env \<Rightarrow> bool \<Rightarrow> int \<Rightarrow> nat \<Rightarrow> bool \<Rightarrow> event list \<Rightarrow> (bool \<times> nat \<times> event list) option"
where
  "read_raw_loop E read_inf read_loop_count k success tr =
     (if fst (loop_cond read_inf read_loop_count)
      then (case read_raw_body E k success tr of
              None \<Rightarrow> None
            | Some (success', tr') \<Rightarrow>
                read_raw_loop E read_inf (snd (loop_cond read_inf read_loop_count)) (Suc k) success' tr')
      else Some (success, k, tr))"

subsection \<open>The interactive session\<close>

text \<open>
  \<^verbatim>\<open>uint8_t response_buffer[16384]\<close> is an array on the stack of \<^verbatim>\<open>main\<close>: a function
  from the index to the byte, with the size beside it. A store outside the array is
  undefined behaviour, the result \<open>Overrun\<close>; nothing is said of a run after it.
\<close>

definition RESPONSE_BUFFER_SIZE :: int where
  "RESPONSE_BUFFER_SIZE = 16384"

datatype 'a run = Returns 'a | Overrun

text \<open>
  \<^verbatim>\<open>printbuf\<close>: the loop over \<open>idx\<close>, then the closing line feed.
\<close>

function printbuf_loop :: "(nat \<Rightarrow> u8) \<Rightarrow> nat \<Rightarrow> nat \<Rightarrow> event list" where
  "printbuf_loop buf count idx =
     (if idx < count
      then [Stdout (hex2 (buf (idx + 1 - 1)))]
           @ (if (idx + 1) mod 16 = 0 then [Stdout [NL]] else [])
           @ printbuf_loop buf count (idx + 1)
      else [])"
  by pat_completeness auto
termination
  by (relation "measure (\<lambda>(buf, count, idx). count - idx)") auto

declare printbuf_loop.simps [simp del]

definition printbuf :: "(nat \<Rightarrow> u8) \<Rightarrow> nat \<Rightarrow> event list" where
  "printbuf buf count = printbuf_loop buf count 0 @ [Stdout [NL]]"

text \<open>
  \<^verbatim>\<open>fgets(icmd_buf_ptr, 8, stdin)\<close>: at most seven characters, up to and including the
  first line feed; \<^verbatim>\<open>NULL\<close> when the input is at its end. The result is the characters
  stored and the rest of the input.
\<close>

fun fgets_take :: "nat \<Rightarrow> string \<Rightarrow> string \<times> string" where
  "fgets_take 0 s = ([], s)"
| "fgets_take (Suc n) [] = ([], [])"
| "fgets_take (Suc n) (c # s) =
     (if c = NL then ([c], s) else (c # fst (fgets_take n s), snd (fgets_take n s)))"

definition fgets :: "nat \<Rightarrow> string \<Rightarrow> (string \<times> string) option" where
  "fgets n s = (if s = [] then None else Some (fgets_take (n - 1) s))"

text \<open>
  The state of the session between two statements: the numbers of calls of
  \<^verbatim>\<open>writeserial\<close> and \<^verbatim>\<open>readserial\<close> made so far, the response buffer and the events.
\<close>

record session =
  writes_made :: nat
  reads_made :: nat
  response_buffer :: "nat \<Rightarrow> u8"
  events :: "event list"

definition emit :: "event list \<Rightarrow> session \<Rightarrow> session" where
  "emit es s = s\<lparr>events := events s @ es\<rparr>"

text \<open>
  The do-while loop that drains the device. The value of \<^verbatim>\<open>bytes_read\<close> is added to
  \<^verbatim>\<open>total_bytes_read\<close> whatever its sign. The result is the session
  and \<^verbatim>\<open>total_bytes_read\<close> after the loop.
\<close>

definition bytes_of :: "read_result \<Rightarrow> int" where
  "bytes_of r = (case r of ReadError \<Rightarrow> - 1 | ReadNone \<Rightarrow> 0 | ReadByte b \<Rightarrow> 1)"

function drain :: "'d env \<Rightarrow> int \<Rightarrow> session \<Rightarrow> (session \<times> int) run" where
  "drain E total_bytes_read s =
     (let r = sys_read E (reads_made s);
          bytes_read = bytes_of r;
          s1 = emit [Serial_read total_bytes_read] (s\<lparr>reads_made := Suc (reads_made s)\<rparr>)
      in case r of
           ReadByte b \<Rightarrow>
             if 0 \<le> total_bytes_read \<and> total_bytes_read < RESPONSE_BUFFER_SIZE
             then drain E (total_bytes_read + bytes_read)
                    (s1\<lparr>response_buffer := (response_buffer s1)(nat total_bytes_read := b)\<rparr>)
             else Overrun
         | _ \<Rightarrow> Returns (s1, total_bytes_read + bytes_read))"
  by pat_completeness auto
termination
  by (relation "measure (\<lambda>(E, total_bytes_read, s). nat (RESPONSE_BUFFER_SIZE - total_bytes_read))")
     (auto simp: bytes_of_def split: read_result.splits)

declare drain.simps [simp del]

text \<open>
  What one turn does with a command byte that passed the range test: the write of the
  byte, and after a write that returned 1 the drain and the report of what it
  collected. The result is the flag \<open>quit\<close>, which the turn leaves false, and the
  session.
\<close>

definition command_turn :: "'d env \<Rightarrow> u8 \<Rightarrow> session \<Rightarrow> (bool \<times> session) run" where
  "command_turn E icmd s =
     (let s1 = emit [Serial_write icmd] (s\<lparr>writes_made := Suc (writes_made s)\<rparr>) in
      if sys_write E (writes_made s) icmd = 1
      then
        (case drain E 0 s1 of
           Overrun \<Rightarrow> Overrun
         | Returns (s2, total_bytes_read) \<Rightarrow>
             Returns (False,
               emit ((if total_bytes_read > 0
                      then printbuf (response_buffer s2) (nat total_bytes_read)
                      else [Stdout (''No response from ECU.'' @ [NL])])
                     @ [Stdout ''> '']) s2))
      else Returns (False,
             emit [Stdout (''Error: failed to write command byte to serial port.'' @ [NL]),
                   Stdout ''> ''] s1))"

text \<open>
  One turn of the while loop of \<^verbatim>\<open>interactive_mode\<close>, for the characters \<open>line\<close> that
  \<^verbatim>\<open>fgets\<close> stored; the buffer holds them and the terminating NUL. \<^verbatim>\<open>fgets\<close> stores at
  least one character, so the indices 0 and 1 are inside what it wrote. \<open>icmd\<close> is a
  \<^verbatim>\<open>uint8_t\<close>: the assignment keeps the low eight bits of what \<^verbatim>\<open>strtoul\<close> returned, and
  the range test reads \<open>icmd\<close> after it.
\<close>

definition interactive_step :: "'d env \<Rightarrow> string \<Rightarrow> session \<Rightarrow> (bool \<times> session) run" where
  "interactive_step E line s =
     (let icmd_buf = line @ [NUL] in
      if strncmp (cstr icmd_buf) ''q'' 1 = 0 \<or> strncmp (cstr icmd_buf) ''quit'' 4 = 0
      then Returns (True, s)
      else if icmd_buf ! 0 \<noteq> NL \<and> icmd_buf ! 1 \<noteq> CR
      then
        (let icmd = (of_nat (strtoul (cstr icmd_buf) 16) :: u8) in
         if 0 \<le> uint icmd \<and> uint icmd \<le> 0xff
         then command_turn E icmd s
         else Returns (False,
                emit [Stdout (''Error: command must be between 0x00 and 0xFF.'' @ [NL]),
                      Stdout ''> ''] s))
      else Returns (False, emit [Stdout ''> ''] s))"

text \<open>
  The while loop \<^verbatim>\<open>while (!quit && (fgets(icmd_buf_ptr, icmd_size, stdin) != NULL))\<close> over the
  input that is left.
\<close>

function interactive_loop :: "'d env \<Rightarrow> string \<Rightarrow> bool \<Rightarrow> session \<Rightarrow> session run" where
  "interactive_loop E inp quit s =
     (if quit then Returns s
      else case fgets 8 inp of
             None \<Rightarrow> Returns s
           | Some (line, rest) \<Rightarrow>
               (case interactive_step E line s of
                  Overrun \<Rightarrow> Overrun
                | Returns (quit', s') \<Rightarrow> interactive_loop E rest quit' s'))"
  by pat_completeness auto
termination
proof (relation "measure (\<lambda>(E, inp, quit, s). length inp)")
  show "wf (measure (\<lambda>(E :: 'd env, inp :: string, quit :: bool, s :: session). length inp))"
    by simp
next
  fix E :: "'d env" and inp quit s x2 x y x2a xa ya
  assume "fgets 8 inp = Some x2" and "(x, y) = x2"
  then have inp: "inp \<noteq> []" and y: "y = snd (fgets_take 7 inp)"
    by (auto simp: fgets_def split: if_splits)
  have len: "length (snd (fgets_take n t)) \<le> length t" for n t
    by (induction n t rule: fgets_take.induct) auto
  obtain c t where ct: "inp = c # t"
    using inp by (cases inp) auto
  have step: "length (snd (fgets_take (Suc n) (c # t))) \<le> length t" for n
    using len [of n t] by simp
  have "(7::nat) = Suc 6"
    by simp
  then have "length (snd (fgets_take 7 (c # t))) \<le> length t"
    using step [of 6] by (simp only:)
  then have "length y < length inp"
    using y ct by simp
  then show "((E, y, ya, xa), E, inp, quit, s) \<in> measure (\<lambda>(E, inp, quit, s). length inp)"
    by simp
qed

declare interactive_loop.simps [simp del]

text \<open>
  \<^verbatim>\<open>interactive_mode\<close>. The function is declared \<^verbatim>\<open>bool\<close> and ends without a
  \<^verbatim>\<open>return\<close> statement, so the value its caller receives is not determined: the
  first component of the result is \<open>None\<close> on every path.
\<close>

definition interactive_mode :: "'d env \<Rightarrow> session \<Rightarrow> (bool option \<times> session) run" where
  "interactive_mode E s =
     (if malloc_ok E
      then
        (case interactive_loop E (stdin E) False
                (emit [Malloc 8, Stdout (''Enter a command (in hex) or 'quit'.'' @ [NL] @ ''> '')] s) of
           Overrun \<Rightarrow> Overrun
         | Returns s' \<Rightarrow> Returns (None, emit [Free] s'))
      else Returns (None,
             emit [Malloc 8, Stdout (''Error allocating command buffer memory.'' @ [NL])] s))"

subsection \<open>The program\<close>

abbreviation (input) MC_Read :: nat where "MC_Read \<equiv> 0"
abbreviation (input) MC_Read_Raw :: nat where "MC_Read_Raw \<equiv> 1"
abbreviation (input) MC_Read_IAC :: nat where "MC_Read_IAC \<equiv> 2"
abbreviation (input) MC_PTC :: nat where "MC_PTC \<equiv> 3"
abbreviation (input) MC_FuelPump :: nat where "MC_FuelPump \<equiv> 4"
abbreviation (input) MC_IAC_Close :: nat where "MC_IAC_Close \<equiv> 5"
abbreviation (input) MC_IAC_Open :: nat where "MC_IAC_Open \<equiv> 6"
abbreviation (input) MC_AC :: nat where "MC_AC \<equiv> 7"
abbreviation (input) MC_Coil :: nat where "MC_Coil \<equiv> 8"
abbreviation (input) MC_Injectors :: nat where "MC_Injectors \<equiv> 9"
abbreviation (input) MC_Interactive :: nat where "MC_Interactive \<equiv> 10"
abbreviation (input) MC_Num_Commands :: nat where "MC_Num_Commands \<equiv> 11"

definition commands :: "string list" where
  "commands = [''read'', ''read-raw'', ''read-iac'', ''ptc'', ''fuelpump'', ''iac-close'',
               ''iac-open'', ''ac'', ''coil'', ''injectors'', ''interactive'']"

text \<open>\<^verbatim>\<open>basename\<close> of \<^verbatim>\<open>libgen.h\<close>.\<close>

definition basename :: "string \<Rightarrow> string" where
  "basename path =
     (let p = rev (dropWhile (\<lambda>c. c = CHR ''/'') (rev path))
      in if path = [] then ''.''
         else if p = [] then ''/''
         else rev (takeWhile (\<lambda>c. c \<noteq> CHR ''/'') (rev p)))"

text \<open>The usage text, printed when fewer than two arguments follow the program name.\<close>

definition usage :: "'d env \<Rightarrow> string list \<Rightarrow> event list" where
  "usage E argv =
     [Stdout (''readmems using librosco v'' @ decimal (fst (lib_version E)) @ ''.''
              @ decimal (fst (snd (lib_version E))) @ ''.''
              @ decimal (snd (snd (lib_version E))) @ [NL]),
      Stdout (''Diagnostic utility using ROSCO protocol for MEMS 1.6 systems'' @ [NL]),
      Stdout (''Usage: '' @ (case argv of [] \<Rightarrow> ''.'' | a # _ \<Rightarrow> basename a)
              @ '' <serial device> <command> [read-loop-count]'' @ [NL]),
      Stdout ('' where <command> is one of the following:'' @ [NL])]
     @ map (\<lambda>c. Stdout ([CHR 0x09] @ c @ [NL])) commands
     @ [Stdout ('' and [read-loop-count] is either a number or 'inf' to read forever.'' @ [NL])]"

text \<open>The search \<^verbatim>\<open>while ((cmd_idx < MC_Num_Commands) && (strcasecmp(...) != 0))\<close>.\<close>

function find_command :: "string \<Rightarrow> nat \<Rightarrow> nat" where
  "find_command name cmd_idx =
     (if cmd_idx < MC_Num_Commands \<and> strcasecmp name (commands ! cmd_idx) \<noteq> 0
      then find_command name (cmd_idx + 1)
      else cmd_idx)"
  by pat_completeness auto
termination
  by (relation "measure (\<lambda>(name, cmd_idx). MC_Num_Commands - cmd_idx)") auto

declare find_command.simps [simp del]

text \<open>
  The switch on \<open>cmd_idx\<close>, entered with \<open>success\<close> false, \<open>readval\<close> 0 and
  \<open>iac_limit_count\<close> 80. The result is the value of \<open>success\<close> after the switch, if it is
  determined, and the events; \<open>None\<close> outside is a run that stays in a loop for ever.
\<close>

definition flag :: "bool \<times> event list \<Rightarrow> (bool option \<times> event list) run option" where
  "flag r = Some (Returns (Some (fst r), snd r))"

definition run_command ::
  "'d env \<Rightarrow> nat \<Rightarrow> bool \<Rightarrow> int \<Rightarrow> (nat \<Rightarrow> u8) \<Rightarrow> event list
     \<Rightarrow> (bool option \<times> event list) run option" where
  "run_command E cmd_idx read_inf read_loop_count buf tr =
     (if cmd_idx = MC_Read then
        (case read_loop E read_inf read_loop_count 0 False tr of
           None \<Rightarrow> None | Some (success, k, tr') \<Rightarrow> flag (success, tr'))
      else if cmd_idx = MC_Read_Raw then
        (case read_raw_loop E read_inf read_loop_count 0 False tr of
           None \<Rightarrow> None | Some (success, k, tr') \<Rightarrow> flag (success, tr'))
      else if cmd_idx = MC_Read_IAC then flag (read_iac E 0 tr)
      else if cmd_idx = MC_PTC then flag (on_off_test E MEMS_PTCRelayOn MEMS_PTCRelayOff tr)
      else if cmd_idx = MC_FuelPump then flag (on_off_test E MEMS_FuelPumpOn MEMS_FuelPumpOff tr)
      else if cmd_idx = MC_IAC_Close then
        (case iac_close_loop E 0 0 80 tr of
           None \<Rightarrow> None | Some (success, k, readval, iac_limit_count, tr') \<Rightarrow> flag (success, tr'))
      else if cmd_idx = MC_IAC_Open then
        (case iac_open_loop E 0 0 tr of
           None \<Rightarrow> None | Some (success, k, readval, tr') \<Rightarrow> flag (success, tr'))
      else if cmd_idx = MC_AC then flag (on_off_test E MEMS_ACRelayOn MEMS_ACRelayOff tr)
      else if cmd_idx = MC_Coil then flag (single_test E MEMS_FireCoil tr)
      else if cmd_idx = MC_Injectors then flag (single_test E MEMS_TestInjectors tr)
      else if cmd_idx = MC_Interactive then
        (case interactive_mode E
                \<lparr>writes_made = 0, reads_made = 0, response_buffer = buf, events = tr\<rparr> of
           Overrun \<Rightarrow> Some Overrun
         | Returns (success, s) \<Rightarrow> Some (Returns (success, events s)))
      else flag (False, tr @ [Stdout (''Error: invalid command'' @ [NL])]))"

text \<open>
  \<^verbatim>\<open>return success ? 0 : -2\<close>, where \<open>None\<close> is a flag that no statement has
  determined.
\<close>

definition exit_status :: "bool option \<Rightarrow> int option" where
  "exit_status success = (case success of None \<Rightarrow> None | Some b \<Rightarrow> Some (if b then 0 else - 2))"

text \<open>
  \<^verbatim>\<open>main\<close>, for the branch of the preprocessor that is not WIN32. \<open>argv\<close> is the argument
  vector, the program name first. The array \<^verbatim>\<open>response_buffer\<close> is not initialised: its
  first contents are the parameter \<open>junk\<close>, over which \<^verbatim>\<open>mems_init_link\<close> stores the
  bytes of its acknowledgement. The result is the exit status and the events.
\<close>

definition main ::
  "'d env \<Rightarrow> (nat \<Rightarrow> u8) \<Rightarrow> string list \<Rightarrow> (int option \<times> event list) run option" where
  "main E junk argv =
     (let argc = length argv in
      if argc < 3 then Some (Returns (Some 0, [Lib_get_version] @ usage E argv))
      else
        let cmd_idx = find_command (argv ! 2) 0 in
        if cmd_idx \<ge> MC_Num_Commands
        then Some (Returns (Some (- 1),
               [Lib_get_version, Stdout (''Invalid command: '' @ argv ! 2 @ [NL])]))
        else
          let read_inf = (argc \<ge> 4 \<and> strcmp (argv ! 3) ''inf'' = 0);
              read_loop_count =
                (if argc \<ge> 4 \<and> \<not> read_inf then int32 (int (strtoul (argv ! 3) 0)) else 1);
              tr1 = [Lib_get_version]
                    @ (if cmd_idx \<noteq> MC_Interactive
                       then [Stdout (''Running command: '' @ commands ! cmd_idx @ [NL])] else [])
                    @ [Lib_init, Lib_connect (argv ! 1)]
          in if lib_connect E
             then
               (case lib_init_link E of
                  Some ack \<Rightarrow>
                    (let buf = (\<lambda>i. if i < length ack then ack ! i else junk i);
                         tr2 = tr1 @ [Lib_init_link,
                                 Stdout (''ECU responded to D0 command with: '' @ hex2 (buf 0)
                                         @ hex2 (buf 1) @ hex2 (buf 2) @ take 2 (hex2 (buf 3))
                                         @ [NL, NL])]
                     in case run_command E cmd_idx read_inf read_loop_count buf tr2 of
                          None \<Rightarrow> None
                        | Some Overrun \<Rightarrow> Some Overrun
                        | Some (Returns (success, tr3)) \<Rightarrow>
                            Some (Returns (exit_status success, tr3 @ [Lib_disconnect, Lib_cleanup])))
                | None \<Rightarrow>
                    Some (Returns (exit_status (Some False),
                      tr1 @ [Lib_init_link, Stdout (''Error in initialization sequence.'' @ [NL]),
                             Lib_disconnect, Lib_cleanup])))
             else Some (Returns (exit_status (Some False),
                    tr1 @ [Stdout (''Error: could not open serial device ('' @ argv ! 1 @ '').'' @ [NL]),
                           Lib_cleanup])))"

subsection \<open>Surroundings used as examples\<close>

text \<open>
  A device that connects and answers the handshake, and then fails every request:
  no telemetry, no actuator responds, a write of one byte succeeds and no byte comes
  back. The examples below change one field of it at a time.
\<close>

definition idle_env :: "unit env" where
  "idle_env =
     \<lparr>lib_version = (1, 2, 3), lib_connect = True,
      lib_init_link = Some [0xD0, 0x99, 0x00, 0x03],
      lib_read = (\<lambda>k. None), fmt_data = (\<lambda>d. ''data''),
      lib_read_raw = (\<lambda>k. None),
      lib_read_iac_position = (False, None),
      lib_test_actuator = (\<lambda>k c. (False, None)),
      malloc_ok = True, stdin = [],
      sys_write = (\<lambda>k b. 1), sys_read = (\<lambda>k. ReadNone)\<rparr>"

definition no_junk :: "nat \<Rightarrow> u8" where
  "no_junk i = 0"

text \<open>The valve reports position 0 at every probe.\<close>

definition closed_valve_env :: "unit env" where
  "closed_valve_env = idle_env\<lparr>lib_test_actuator := (\<lambda>k c. (True, Some 0))\<rparr>"

text \<open>The valve reports the positions 0x10, 0x50 and 0xB4, and fails afterwards.\<close>

definition opening_valve_env :: "unit env" where
  "opening_valve_env =
     idle_env\<lparr>lib_test_actuator :=
       (\<lambda>k c. if k = 0 then (True, Some 0x10) else if k = 1 then (True, Some 0x50)
              else if k = 2 then (True, Some 0xB4) else (False, None))\<rparr>"

text \<open>Every other request for telemetry is answered.\<close>

definition flaky_env :: "unit env" where
  "flaky_env =
     idle_env\<lparr>lib_read := (\<lambda>k. if even k then None else Some ()),
               lib_read_raw := (\<lambda>k. if even k then None else Some ([0x80], [0x7D]))\<rparr>"

text \<open>The valve reports the position 0x10 once; every later probe fails.\<close>

definition stuck_valve_env :: "unit env" where
  "stuck_valve_env =
     idle_env\<lparr>lib_test_actuator := (\<lambda>k c. if k = 0 then (True, Some 0x10) else (False, None))\<rparr>"

text \<open>The session as \<^verbatim>\<open>main\<close> hands it over, with nothing done yet.\<close>

definition fresh_session :: session where
  "fresh_session = \<lparr>writes_made = 0, reads_made = 0, response_buffer = no_junk, events = []\<rparr>"

text \<open>The device sends the byte 0xAA, and the next read fails.\<close>

definition one_byte_env :: "unit env" where
  "one_byte_env = idle_env\<lparr>sys_read := (\<lambda>k. if k = 0 then ReadByte 0xAA else ReadError)\<rparr>"

text \<open>The device sends the bytes 0x01 and 0x02, and then no more.\<close>

definition two_bytes_env :: "unit env" where
  "two_bytes_env =
     idle_env\<lparr>sys_read := (\<lambda>k. if k = 0 then ReadByte 0x01 else if k = 1 then ReadByte 0x02
                                else ReadNone)\<rparr>"

text \<open>The device never stops sending the byte 0x55.\<close>

definition babbling_env :: "unit env" where
  "babbling_env = idle_env\<lparr>sys_read := (\<lambda>k. ReadByte 0x55)\<rparr>"

text \<open>Every actuator responds; and the actuators respond to the first request only.\<close>

definition willing_env :: "unit env" where
  "willing_env = idle_env\<lparr>lib_test_actuator := (\<lambda>k c. (True, None))\<rparr>"

definition off_fails_env :: "unit env" where
  "off_fails_env = idle_env\<lparr>lib_test_actuator := (\<lambda>k c. (k = 0, None))\<rparr>"

text \<open>The operator types \<^verbatim>\<open>quit\<close>.\<close>

definition quitting_env :: "unit env" where
  "quitting_env = idle_env\<lparr>stdin := ''quit'' @ [NL]\<rparr>"

section \<open>Properties\<close>

subsection \<open>The position loops\<close>

text \<open>
  A run of the closing loop from the call number \<open>k\<close> with the budget \<open>c\<close>: when the
  probes succeed with the positions \<open>ps\<close>, as many of them 0 as the budget counts,
  the last of them 0, the loop ends with the last of them.
\<close>

lemma iac_close_run:
  "\<lbrakk>\<forall>i<length ps. lib_test_actuator E (k + i) MEMS_CloseIAC = (True, Some (ps ! i));
    count_list ps 0 = unat c; c \<noteq> 0; last ps = 0\<rbrakk>
   \<Longrightarrow> iac_close_loop E k rv c tr =
         Some (True, k + length ps, 0, 0,
               tr @ replicate (length ps) (Lib_test_actuator MEMS_CloseIAC))"
proof (induction ps arbitrary: k rv c tr)
  case Nil
  then show ?case by (simp add: unat_eq_0)
next
  case (Cons p ps)
  have h0: "lib_test_actuator E k MEMS_CloseIAC = (True, Some p)"
    using Cons.prems(1) by force
  have hs: "\<forall>i<length ps. lib_test_actuator E (Suc k + i) MEMS_CloseIAC = (True, Some (ps ! i))"
    using Cons.prems(1) by force
  show ?case
  proof (cases "p = 0")
    case True
    note p0 = this
    show ?thesis
    proof (cases "c - 1 = 0")
      case True
      then have "unat c = 1" by (metis diff_add_cancel add_0 unat_1)
      with Cons.prems(2) p0 have cz: "count_list ps 0 = 0" by simp
      have "ps = []"
      proof (rule ccontr)
        assume ne: "ps \<noteq> []"
        with Cons.prems(4) have "last ps = 0" by simp
        with ne have "0 \<in> set ps" by (metis last_in_set)
        with cz show False by (simp add: count_list_0_iff)
      qed
      with True p0 h0 show ?thesis
        by (subst iac_close_loop.simps) (simp add: stored_def)
    next
      case False
      have "unat (c - 1) = unat c - 1"
        using Cons.prems(3) by (rule unat_minus_one)
      with Cons.prems(2) p0 have cnt: "count_list ps 0 = unat (c - 1)" by simp
      with False have "ps \<noteq> []" by (auto simp: unat_eq_0)
      with Cons.prems(4) have l: "last ps = 0" by simp
      have "iac_close_loop E (Suc k) 0 (c - 1) (tr @ [Lib_test_actuator MEMS_CloseIAC]) =
        Some (True, Suc k + length ps, 0, 0,
          (tr @ [Lib_test_actuator MEMS_CloseIAC])
          @ replicate (length ps) (Lib_test_actuator MEMS_CloseIAC))"
        by (rule Cons.IH [OF hs cnt False l])
      with False p0 h0 show ?thesis
        by (subst iac_close_loop.simps) (simp add: stored_def replicate_app_Cons_same)
    qed
  next
    case False
    with Cons.prems(2) have cnt: "count_list ps 0 = unat c" by simp
    with Cons.prems(3) have "ps \<noteq> []" by (auto simp: unat_eq_0)
    with Cons.prems(4) have l: "last ps = 0" by simp
    have "iac_close_loop E (Suc k) p c (tr @ [Lib_test_actuator MEMS_CloseIAC]) =
        Some (True, Suc k + length ps, 0, 0,
          (tr @ [Lib_test_actuator MEMS_CloseIAC])
          @ replicate (length ps) (Lib_test_actuator MEMS_CloseIAC))"
      by (rule Cons.IH [OF hs cnt Cons.prems(3) l])
    with False h0 Cons.prems(3) show ?thesis
      by (subst iac_close_loop.simps) (simp add: stored_def replicate_app_Cons_same)
  qed
qed

lemma iac_close_command:
  assumes "\<forall>i<length ps. lib_test_actuator E i MEMS_CloseIAC = (True, Some (ps ! i))"
    and "count_list ps 0 = 80" and "last ps = 0"
  shows "run_command E MC_IAC_Close read_inf read_loop_count buf tr =
           Some (Returns (Some True, tr @ replicate (length ps) (Lib_test_actuator MEMS_CloseIAC)))"
proof -
  have "iac_close_loop E 0 0 80 tr =
          Some (True, 0 + length ps, 0, 0,
                tr @ replicate (length ps) (Lib_test_actuator MEMS_CloseIAC))"
    using assms by (intro iac_close_run) simp_all
  then show ?thesis by (simp add: run_command_def flag_def)
qed

text \<open>
  A run of the opening loop: the probes succeed with the positions \<open>ps\<close>, all below
  0xB4, and the next probe either fails or leaves a position of 0xB4 or more.
\<close>

lemma iac_open_run:
  "\<lbrakk>\<forall>i<length ps. lib_test_actuator E (k + i) MEMS_OpenIAC = (True, Some (ps ! i)) \<and> ps ! i < 0xB4;
    lib_test_actuator E (k + length ps) MEMS_OpenIAC = (ok, out);
    ok \<longrightarrow> 0xB4 \<le> stored (last (rv # ps)) out\<rbrakk>
   \<Longrightarrow> iac_open_loop E k rv tr =
         Some (ok, Suc (k + length ps), stored (last (rv # ps)) out,
               tr @ replicate (Suc (length ps)) (Lib_test_actuator MEMS_OpenIAC))"
proof (induction ps arbitrary: k rv tr)
  case Nil
  then show ?case
    by (subst iac_open_loop.simps) (auto simp: Let_def)
next
  case (Cons p ps)
  have h0: "lib_test_actuator E k MEMS_OpenIAC = (True, Some p)" and p: "p < 0xB4"
    using Cons.prems(1) by force+
  have hs: "\<forall>i<length ps. lib_test_actuator E (Suc k + i) MEMS_OpenIAC = (True, Some (ps ! i))
              \<and> ps ! i < 0xB4"
    using Cons.prems(1) by force
  have hl: "lib_test_actuator E (Suc k + length ps) MEMS_OpenIAC = (ok, out)"
    using Cons.prems(2) by simp
  have hk: "ok \<longrightarrow> 0xB4 \<le> stored (last (p # ps)) out"
    using Cons.prems(3) by simp
  have "iac_open_loop E (Suc k) p (tr @ [Lib_test_actuator MEMS_OpenIAC]) =
         Some (ok, Suc (Suc k + length ps), stored (last (p # ps)) out,
               (tr @ [Lib_test_actuator MEMS_OpenIAC])
               @ replicate (Suc (length ps)) (Lib_test_actuator MEMS_OpenIAC))"
    by (rule Cons.IH [OF hs hl hk])
  with h0 p show ?case
    by (subst iac_open_loop.simps) (simp add: stored_def replicate_app_Cons_same)
qed

lemma iac_open_command:
  assumes "\<forall>i<length ps. lib_test_actuator E i MEMS_OpenIAC = (True, Some (ps ! i)) \<and> ps ! i < 0xB4"
    and "lib_test_actuator E (length ps) MEMS_OpenIAC = (ok, out)"
    and "ok \<longrightarrow> (\<exists>p. out = Some p \<and> 0xB4 \<le> p)"
  shows "run_command E MC_IAC_Open read_inf read_loop_count buf tr =
           Some (Returns (Some ok, tr @ replicate (Suc (length ps)) (Lib_test_actuator MEMS_OpenIAC)))"
proof -
  have "ok \<longrightarrow> 0xB4 \<le> stored (last (0 # ps)) out"
    using assms(3) by (auto simp: stored_def)
  with assms(1,2) have "iac_open_loop E 0 0 tr =
          Some (ok, Suc (0 + length ps), stored (last (0 # ps)) out,
                tr @ replicate (Suc (length ps)) (Lib_test_actuator MEMS_OpenIAC))"
    by (intro iac_open_run) simp_all
  then show ?thesis by (simp add: run_command_def flag_def)
qed

lemma count_list_replicate_same: "count_list (replicate n x) x = n"
  by (induction n) auto

text \<open>
  Claim C1, evaluated at a valve that reads position 0 at every probe. The comment on
  \<^verbatim>\<open>iac_limit_count\<close> gives 80 as the number of times the command is sent again once the
  ECU reports that the valve has reached its position, which makes 81 probes here. The
  loop takes one unit of the budget for the first reading of 0 already: the closing
  test makes 80 probes in all, 79 of them after that reading, and not 81.
\<close>

theorem iac_close_always_zero_probes:
  "run_command closed_valve_env MC_IAC_Close False 1 no_junk [] =
     Some (Returns (Some True, replicate 80 (Lib_test_actuator MEMS_CloseIAC)))
   \<and> run_command closed_valve_env MC_IAC_Close False 1 no_junk [] \<noteq>
     Some (Returns (Some True, replicate 81 (Lib_test_actuator MEMS_CloseIAC)))"
proof -
  have "run_command closed_valve_env MC_IAC_Close False 1 no_junk [] =
     Some (Returns (Some True, [] @ replicate (length (replicate 80 (0::u8))) (Lib_test_actuator MEMS_CloseIAC)))"
    by (rule iac_close_command) (simp_all add: closed_valve_env_def idle_env_def count_list_replicate_same)
  then have e: "run_command closed_valve_env MC_IAC_Close False 1 no_junk [] =
     Some (Returns (Some True, replicate 80 (Lib_test_actuator MEMS_CloseIAC)))"
    by simp
  have "length (replicate 80 (Lib_test_actuator MEMS_CloseIAC)) \<noteq> length (replicate 81 (Lib_test_actuator MEMS_CloseIAC))"
    by simp
  then have "replicate 80 (Lib_test_actuator MEMS_CloseIAC) \<noteq> replicate 81 (Lib_test_actuator MEMS_CloseIAC)"
    by metis
  with e show ?thesis by simp
qed

text \<open>
  Claim C9. The opening test repeats the probe while it succeeds with a position below
  0xB4. It ends with the first probe that fails, reporting failure, or with the first
  probe that returns a position of 0xB4 or more, reporting success; no counter limits
  or extends the repetition. For the positions 0x10, 0x50, 0xB4 it makes exactly three
  probes and reports success.
\<close>

theorem iac_open_hysteresis:
  "((\<forall>i<length ps. lib_test_actuator E i MEMS_OpenIAC = (True, Some (ps ! i)) \<and> ps ! i < 0xB4)
      \<and> lib_test_actuator E (length ps) MEMS_OpenIAC = (ok, out)
      \<and> (ok \<longrightarrow> (\<exists>p. out = Some p \<and> 0xB4 \<le> p)) \<longrightarrow>
    run_command E MC_IAC_Open read_inf read_loop_count buf tr =
      Some (Returns (Some ok, tr @ replicate (Suc (length ps)) (Lib_test_actuator MEMS_OpenIAC))))
   \<and> (lib_test_actuator E 0 MEMS_OpenIAC = (True, Some 0x10)
      \<and> lib_test_actuator E 1 MEMS_OpenIAC = (True, Some 0x50)
      \<and> lib_test_actuator E 2 MEMS_OpenIAC = (True, Some 0xB4) \<longrightarrow>
    run_command E MC_IAC_Open read_inf read_loop_count buf tr =
      Some (Returns (Some True, tr @ replicate 3 (Lib_test_actuator MEMS_OpenIAC))))"
proof (intro conjI impI)
  assume "(\<forall>i<length ps. lib_test_actuator E i MEMS_OpenIAC = (True, Some (ps ! i)) \<and> ps ! i < 0xB4)
      \<and> lib_test_actuator E (length ps) MEMS_OpenIAC = (ok, out)
      \<and> (ok \<longrightarrow> (\<exists>p. out = Some p \<and> 0xB4 \<le> p))"
  then show "run_command E MC_IAC_Open read_inf read_loop_count buf tr =
      Some (Returns (Some ok, tr @ replicate (Suc (length ps)) (Lib_test_actuator MEMS_OpenIAC)))"
    by (intro iac_open_command) blast+
next
  assume a: "lib_test_actuator E 0 MEMS_OpenIAC = (True, Some 0x10)
      \<and> lib_test_actuator E 1 MEMS_OpenIAC = (True, Some 0x50)
      \<and> lib_test_actuator E 2 MEMS_OpenIAC = (True, Some 0xB4)"
  let ?ps = "[0x10, 0x50 :: u8]"
  have "\<forall>i<length ?ps. lib_test_actuator E i MEMS_OpenIAC = (True, Some (?ps ! i)) \<and> ?ps ! i < 0xB4"
    using a by (auto simp: less_Suc_eq_0_disj)
  moreover have "lib_test_actuator E (length ?ps) MEMS_OpenIAC = (True, Some 0xB4)"
    using a by (simp add: numeral_2_eq_2)
  moreover have "True \<longrightarrow> (\<exists>p. Some (0xB4 :: u8) = Some p \<and> 0xB4 \<le> p)"
    by blast
  ultimately have "run_command E MC_IAC_Open read_inf read_loop_count buf tr =
      Some (Returns (Some True, tr @ replicate (Suc (length ?ps)) (Lib_test_actuator MEMS_OpenIAC)))"
    by (rule iac_open_command)
  then show "run_command E MC_IAC_Open read_inf read_loop_count buf tr =
      Some (Returns (Some True, tr @ replicate 3 (Lib_test_actuator MEMS_OpenIAC)))"
    by (simp add: eval_nat_numeral)
qed

text \<open>
  Claim C9 at two devices: the positions 0x10, 0x50, 0xB4 (three probes, success), and
  a valve whose second probe fails (two probes, failure).
\<close>

theorem iac_open_hysteresis_witness:
  "run_command opening_valve_env MC_IAC_Open False 1 no_junk [] =
     Some (Returns (Some True, replicate 3 (Lib_test_actuator MEMS_OpenIAC)))
   \<and> run_command stuck_valve_env MC_IAC_Open False 1 no_junk [] =
     Some (Returns (Some False, replicate 2 (Lib_test_actuator MEMS_OpenIAC)))"
proof
  show "run_command opening_valve_env MC_IAC_Open False 1 no_junk [] =
     Some (Returns (Some True, replicate 3 (Lib_test_actuator MEMS_OpenIAC)))"
    using iac_open_hysteresis [where E = opening_valve_env and read_inf = False
        and read_loop_count = 1 and buf = no_junk and tr = "[]" and ps = "[]" and ok = True and out = None]
    by (simp add: opening_valve_env_def)
next
  let ?ps = "[0x10 :: u8]"
  have "\<forall>i<length ?ps. lib_test_actuator stuck_valve_env i MEMS_OpenIAC = (True, Some (?ps ! i)) \<and> ?ps ! i < 0xB4"
    by (simp add: stuck_valve_env_def)
  moreover have "lib_test_actuator stuck_valve_env (length ?ps) MEMS_OpenIAC = (False, None)"
    by (simp add: stuck_valve_env_def)
  ultimately show "run_command stuck_valve_env MC_IAC_Open False 1 no_junk [] =
     Some (Returns (Some False, replicate 2 (Lib_test_actuator MEMS_OpenIAC)))"
    using iac_open_hysteresis [where E = stuck_valve_env and read_inf = False
        and read_loop_count = 1 and buf = no_junk and tr = "[]" and ps = ?ps and ok = False and out = None]
    by (simp add: eval_nat_numeral)
qed


subsection \<open>The relay and pump tests\<close>

text \<open>
  Claim C8. In the tests of the PTC relay, the fuel pump and the A/C relay the probe
  "on" comes first. When it succeeds the program calls \<^verbatim>\<open>sleep(2)\<close> and then issues the
  probe "off", in this order; when it fails the probe "off" is not issued and the
  test reports failure. The test reports success exactly when both probes succeed.
\<close>

theorem on_off_dwell:
  "run_command E MC_PTC read_inf read_loop_count buf tr =
     Some (Returns (Some (fst (lib_test_actuator E 0 MEMS_PTCRelayOn)
                          \<and> fst (lib_test_actuator E 1 MEMS_PTCRelayOff)),
        tr @ (if fst (lib_test_actuator E 0 MEMS_PTCRelayOn)
              then [Lib_test_actuator MEMS_PTCRelayOn, Sleep 2, Lib_test_actuator MEMS_PTCRelayOff]
              else [Lib_test_actuator MEMS_PTCRelayOn])))
   \<and> run_command E MC_FuelPump read_inf read_loop_count buf tr =
     Some (Returns (Some (fst (lib_test_actuator E 0 MEMS_FuelPumpOn)
                          \<and> fst (lib_test_actuator E 1 MEMS_FuelPumpOff)),
        tr @ (if fst (lib_test_actuator E 0 MEMS_FuelPumpOn)
              then [Lib_test_actuator MEMS_FuelPumpOn, Sleep 2, Lib_test_actuator MEMS_FuelPumpOff]
              else [Lib_test_actuator MEMS_FuelPumpOn])))
   \<and> run_command E MC_AC read_inf read_loop_count buf tr =
     Some (Returns (Some (fst (lib_test_actuator E 0 MEMS_ACRelayOn)
                          \<and> fst (lib_test_actuator E 1 MEMS_ACRelayOff)),
        tr @ (if fst (lib_test_actuator E 0 MEMS_ACRelayOn)
              then [Lib_test_actuator MEMS_ACRelayOn, Sleep 2, Lib_test_actuator MEMS_ACRelayOff]
              else [Lib_test_actuator MEMS_ACRelayOn])))"
  by (simp add: run_command_def flag_def on_off_test_def)

text \<open>
  Claim C8 at three devices: no actuator responds, every actuator responds, and the
  actuators respond to the first probe only.
\<close>

theorem on_off_dwell_witness:
  "run_command idle_env MC_PTC False 1 no_junk [] =
     Some (Returns (Some False, [Lib_test_actuator MEMS_PTCRelayOn]))
   \<and> run_command willing_env MC_FuelPump False 1 no_junk [] =
     Some (Returns (Some True,
       [Lib_test_actuator MEMS_FuelPumpOn, Sleep 2, Lib_test_actuator MEMS_FuelPumpOff]))
   \<and> run_command off_fails_env MC_AC False 1 no_junk [] =
     Some (Returns (Some False,
       [Lib_test_actuator MEMS_ACRelayOn, Sleep 2, Lib_test_actuator MEMS_ACRelayOff]))"
  using on_off_dwell [where E = idle_env and read_inf = False and read_loop_count = 1
      and buf = no_junk and tr = "[]"]
    on_off_dwell [where E = willing_env and read_inf = False and read_loop_count = 1
      and buf = no_junk and tr = "[]"]
    on_off_dwell [where E = off_fails_env and read_inf = False and read_loop_count = 1
      and buf = no_junk and tr = "[]"]
  by (simp add: idle_env_def willing_env_def off_fails_env_def)

subsection \<open>The telemetry loops\<close>

lemma int32_id: "- (2 ^ 31) \<le> v \<Longrightarrow> v < 2 ^ 31 \<Longrightarrow> int32 v = v"
  by (simp add: int32_def)

lemma read_loop_run:
  "n < 2 ^ 31 \<Longrightarrow>
   \<exists>tr'. read_loop E False (int n) k s tr =
            Some (s \<or> (\<exists>i<n. lib_read E (k + i) \<noteq> None), k + n, tr')
     \<and> count_list tr' Lib_read = count_list tr Lib_read + n"
proof (induction n arbitrary: k s tr)
  case 0
  show ?case by (subst read_loop.simps) (simp add: loop_cond_def)
next
  case (Suc n)
  then have n: "n < 2 ^ 31" by simp
  have c: "loop_cond False (int (Suc n)) = (True, int n)"
    using n by (simp add: loop_cond_def int32_id)
  obtain s1 tr1 where b: "read_body E k s tr = (s1, tr1)" by force
  have s1: "s1 = (s \<or> lib_read E k \<noteq> None)"
    and t1: "count_list tr1 Lib_read = Suc (count_list tr Lib_read)"
    using b by (auto simp: read_body_def split: option.splits)
  from Suc.IH [OF n, of "Suc k" s1 tr1] obtain tr' where
    r: "read_loop E False (int n) (Suc k) s1 tr1 =
          Some (s1 \<or> (\<exists>i<n. lib_read E (Suc k + i) \<noteq> None), Suc k + n, tr')"
    and l: "count_list tr' Lib_read = count_list tr1 Lib_read + n"
    by blast
  have e: "(s1 \<or> (\<exists>i<n. lib_read E (Suc k + i) \<noteq> None)) =
           (s \<or> (\<exists>i<Suc n. lib_read E (k + i) \<noteq> None))"
    unfolding s1 by (auto simp: less_Suc_eq_0_disj)
  show ?case
    by (subst read_loop.simps) (use c b r l t1 e in simp)
qed

lemma count_list_append: "count_list (xs @ ys) x = count_list xs x + count_list ys x"
  by (induction xs) auto

lemma count_list_map_Stdout: "count_list (map (\<lambda>b. Stdout (f b)) xs) Lib_read_raw = 0"
  by (induction xs) auto

lemma read_raw_body_run:
  assumes "\<forall>f80 f7d. lib_read_raw E k = Some (f80, f7d) \<longrightarrow> length f80 < 256 \<and> length f7d < 256"
  shows "\<exists>tr1. read_raw_body E k s tr = Some (s \<or> lib_read_raw E k \<noteq> None, tr1)
     \<and> count_list tr1 Lib_read_raw = Suc (count_list tr Lib_read_raw)"
proof (cases "lib_read_raw E k")
  case None
  then show ?thesis by (simp add: read_raw_body_def)
next
  case (Some fr)
  obtain f80 f7d where fr: "fr = (f80, f7d)" by (cases fr)
  with Some assms have "length f80 < 256" "length f7d < 256" by auto
  with Some fr show ?thesis
    by (simp add: read_raw_body_def print_frame_def count_list_append count_list_map_Stdout)
qed

lemma read_raw_loop_run:
  "\<lbrakk>n < 2 ^ 31;
    \<forall>k f80 f7d. lib_read_raw E k = Some (f80, f7d) \<longrightarrow> length f80 < 256 \<and> length f7d < 256\<rbrakk> \<Longrightarrow>
   \<exists>tr'. read_raw_loop E False (int n) k s tr =
            Some (s \<or> (\<exists>i<n. lib_read_raw E (k + i) \<noteq> None), k + n, tr')
     \<and> count_list tr' Lib_read_raw = count_list tr Lib_read_raw + n"
proof (induction n arbitrary: k s tr)
  case 0
  show ?case by (subst read_raw_loop.simps) (simp add: loop_cond_def)
next
  case (Suc n)
  then have n: "n < 2 ^ 31" by simp
  have c: "loop_cond False (int (Suc n)) = (True, int n)"
    using n by (simp add: loop_cond_def int32_id)
  from read_raw_body_run [of E k s tr] Suc.prems(2) obtain tr1 where
    b: "read_raw_body E k s tr = Some (s \<or> lib_read_raw E k \<noteq> None, tr1)"
    and t1: "count_list tr1 Lib_read_raw = Suc (count_list tr Lib_read_raw)"
    by blast
  let ?s1 = "s \<or> lib_read_raw E k \<noteq> None"
  from Suc.IH [OF n Suc.prems(2), of "Suc k" ?s1 tr1] obtain tr' where
    r: "read_raw_loop E False (int n) (Suc k) ?s1 tr1 =
          Some (?s1 \<or> (\<exists>i<n. lib_read_raw E (Suc k + i) \<noteq> None), Suc k + n, tr')"
    and l: "count_list tr' Lib_read_raw = count_list tr1 Lib_read_raw + n"
    by blast
  have e: "(?s1 \<or> (\<exists>i<n. lib_read_raw E (Suc k + i) \<noteq> None)) =
           (s \<or> (\<exists>i<Suc n. lib_read_raw E (k + i) \<noteq> None))"
    by (auto simp: less_Suc_eq_0_disj)
  show ?case
    by (subst read_raw_loop.simps) (use c b r l t1 e in simp)
qed

text \<open>
  Claim C3. With \<^verbatim>\<open>read_inf\<close> false and a count \<open>N\<close> that is not negative, the loop of
  \<^verbatim>\<open>read\<close> and the loop of \<^verbatim>\<open>read-raw\<close> call their acquisition exactly \<open>N\<close> times,
  whether the calls succeed or fail; the command reports success exactly when one of
  these \<open>N\<close> calls succeeded. With \<open>N = 0\<close> nothing is called and the command reports
  failure. For the raw loop the frames are structs of fewer than 256 bytes.
\<close>

theorem telemetry_loop_count:
  "0 \<le> N \<and> N < 2 ^ 31 \<longrightarrow>
     (\<exists>tr'. run_command E MC_Read False N buf tr =
               Some (Returns (Some (\<exists>i<nat N. lib_read E i \<noteq> None), tr'))
            \<and> count_list tr' Lib_read = count_list tr Lib_read + nat N)
     \<and> ((\<forall>k f80 f7d. lib_read_raw E k = Some (f80, f7d) \<longrightarrow> length f80 < 256 \<and> length f7d < 256) \<longrightarrow>
          (\<exists>tr'. run_command E MC_Read_Raw False N buf tr =
               Some (Returns (Some (\<exists>i<nat N. lib_read_raw E i \<noteq> None), tr'))
            \<and> count_list tr' Lib_read_raw = count_list tr Lib_read_raw + nat N))
     \<and> (N = 0 \<longrightarrow> run_command E MC_Read False N buf tr = Some (Returns (Some False, tr))
                \<and> run_command E MC_Read_Raw False N buf tr = Some (Returns (Some False, tr)))"
proof (intro impI conjI)
  assume N: "0 \<le> N \<and> N < 2 ^ 31"
  then have n: "nat N < 2 ^ 31" and i: "int (nat N) = N" by (simp_all add: nat_less_iff)
  from read_loop_run [OF n, of E 0 False tr] obtain tr' where
    "read_loop E False N 0 False tr = Some (\<exists>i<nat N. lib_read E i \<noteq> None, nat N, tr')"
    "count_list tr' Lib_read = count_list tr Lib_read + nat N"
    unfolding i by auto
  then show "\<exists>tr'. run_command E MC_Read False N buf tr =
               Some (Returns (Some (\<exists>i<nat N. lib_read E i \<noteq> None), tr'))
            \<and> count_list tr' Lib_read = count_list tr Lib_read + nat N"
    by (simp add: run_command_def flag_def)
next
  assume N: "0 \<le> N \<and> N < 2 ^ 31"
    and f: "\<forall>k f80 f7d. lib_read_raw E k = Some (f80, f7d) \<longrightarrow> length f80 < 256 \<and> length f7d < 256"
  from N have n: "nat N < 2 ^ 31" and i: "int (nat N) = N" by (simp_all add: nat_less_iff)
  from read_raw_loop_run [OF n f, of 0 False tr] obtain tr' where
    "read_raw_loop E False N 0 False tr = Some (\<exists>i<nat N. lib_read_raw E i \<noteq> None, nat N, tr')"
    "count_list tr' Lib_read_raw = count_list tr Lib_read_raw + nat N"
    unfolding i by auto
  then show "\<exists>tr'. run_command E MC_Read_Raw False N buf tr =
               Some (Returns (Some (\<exists>i<nat N. lib_read_raw E i \<noteq> None), tr'))
            \<and> count_list tr' Lib_read_raw = count_list tr Lib_read_raw + nat N"
    by (simp add: run_command_def flag_def)
next
  assume "N = 0"
  then show "run_command E MC_Read False N buf tr = Some (Returns (Some False, tr))"
    by (simp add: run_command_def flag_def loop_cond_def read_loop.simps [of E False 0])
next
  assume "N = 0"
  then show "run_command E MC_Read_Raw False N buf tr = Some (Returns (Some False, tr))"
    by (simp add: run_command_def flag_def loop_cond_def read_raw_loop.simps [of E False 0])
qed

text \<open>
  Claim C3 at a device that answers every other request (three calls, success), at the
  device that answers none (two calls, failure), and for the count 0.
\<close>

theorem telemetry_loop_count_witness:
  "(\<exists>tr'. run_command flaky_env MC_Read False 3 no_junk [] = Some (Returns (Some True, tr'))
          \<and> count_list tr' Lib_read = 3)
   \<and> (\<exists>tr'. run_command flaky_env MC_Read_Raw False 3 no_junk [] = Some (Returns (Some True, tr'))
          \<and> count_list tr' Lib_read_raw = 3)
   \<and> (\<exists>tr'. run_command idle_env MC_Read False 2 no_junk [] = Some (Returns (Some False, tr'))
          \<and> count_list tr' Lib_read = 2)
   \<and> run_command idle_env MC_Read_Raw False 0 no_junk [] = Some (Returns (Some False, []))"
proof (intro conjI)
  have a: "(\<exists>i<nat 3. lib_read flaky_env i \<noteq> None) = True"
    by (auto simp: flaky_env_def idle_env_def intro!: exI [of _ 1])
  show "\<exists>tr'. run_command flaky_env MC_Read False 3 no_junk [] = Some (Returns (Some True, tr'))
          \<and> count_list tr' Lib_read = 3"
    using telemetry_loop_count [where N = 3 and E = flaky_env and buf = no_junk and tr = "[]"]
    unfolding a by simp
next
  have a: "(\<exists>i<nat 3. lib_read_raw flaky_env i \<noteq> None) = True"
    by (auto simp: flaky_env_def idle_env_def intro!: exI [of _ 1])
  have f: "\<forall>k f80 f7d. lib_read_raw flaky_env k = Some (f80, f7d) \<longrightarrow> length f80 < 256 \<and> length f7d < 256"
    by (auto simp: flaky_env_def idle_env_def split: if_splits)
  show "\<exists>tr'. run_command flaky_env MC_Read_Raw False 3 no_junk [] = Some (Returns (Some True, tr'))
          \<and> count_list tr' Lib_read_raw = 3"
    using telemetry_loop_count [where N = 3 and E = flaky_env and buf = no_junk and tr = "[]"] f
    unfolding a by simp
next
  have a: "(\<exists>i<nat 2. lib_read idle_env i \<noteq> None) = False"
    by (simp add: idle_env_def)
  show "\<exists>tr'. run_command idle_env MC_Read False 2 no_junk [] = Some (Returns (Some False, tr'))
          \<and> count_list tr' Lib_read = 2"
    using telemetry_loop_count [where N = 2 and E = idle_env and buf = no_junk and tr = "[]"]
    unfolding a by (auto simp: numeral_2_eq_2)
next
  show "run_command idle_env MC_Read_Raw False 0 no_junk [] = Some (Returns (Some False, []))"
    using telemetry_loop_count [where N = 0 and E = idle_env and buf = no_junk and tr = "[]"]
    by simp
qed


subsection \<open>The interactive session\<close>

text \<open>The two comparisons that end the session look at the first character only.\<close>

lemma code_of_eq: "code_of x = code_of y \<longleftrightarrow> x = y"
  by (simp add: code_of_def ord_def)

lemma code_of_q: "code_of CHR ''q'' \<noteq> 0"
  by (simp add: code_of_def ord_def)

lemma strncmp_q: "strncmp s ''q'' 1 = 0 \<longleftrightarrow> s \<noteq> [] \<and> hd s = CHR ''q''"
proof (cases s)
  case Nil
  then show ?thesis using code_of_q by simp
next
  case (Cons x a)
  then show ?thesis using code_of_eq [of x "CHR ''q''"] by simp
qed

lemma strncmp_quit: "strncmp s ''quit'' 4 = 0 \<Longrightarrow> s \<noteq> [] \<and> hd s = CHR ''q''"
proof (cases s)
  case Nil
  assume "strncmp s ''quit'' 4 = 0"
  with Nil show ?thesis using code_of_q by (simp add: eval_nat_numeral)
next
  case (Cons x a)
  assume "strncmp s ''quit'' 4 = 0"
  with Cons show ?thesis using code_of_eq [of x "CHR ''q''"]
    by (simp add: eval_nat_numeral split: if_splits)
qed

lemma cstr_hd: "cstr (line @ [NUL]) \<noteq> [] \<and> hd (cstr (line @ [NUL])) = CHR ''q''
   \<longleftrightarrow> line \<noteq> [] \<and> hd line = CHR ''q''"
  by (cases line) (auto simp: cstr_def)

lemma quit_test:
  "strncmp (cstr (line @ [NUL])) ''q'' 1 = 0 \<or> strncmp (cstr (line @ [NUL])) ''quit'' 4 = 0
   \<longleftrightarrow> line \<noteq> [] \<and> hd line = CHR ''q''"
  using strncmp_q [of "cstr (line @ [NUL])"] strncmp_quit [of "cstr (line @ [NUL])"] cstr_hd [of line]
  by blast

lemma uint_u8_range: "0 \<le> uint (w :: u8) \<and> uint w \<le> 0xff"
proof -
  have "uint w < 2 ^ 8" using uint_bounded [of w] by simp
  then show ?thesis by simp
qed

lemma step_cases:
  "interactive_step E line s =
     (if line \<noteq> [] \<and> hd line = CHR ''q'' then Returns (True, s)
      else if (line @ [NUL]) ! 0 \<noteq> NL \<and> (line @ [NUL]) ! 1 \<noteq> CR
      then command_turn E (of_nat (strtoul (cstr (line @ [NUL])) 16)) s
      else Returns (False, emit [Stdout ''> ''] s))"
  using quit_test [of line] uint_u8_range
  by (simp add: interactive_step_def Let_def)

text \<open>
  The drain, when the device sends the bytes \<open>bs\<close> and the next read returns 0 or -1,
  and the bytes fit between the offset \<open>t\<close> and the end of the array.
\<close>

lemma drain_run:
  "\<lbrakk>\<forall>i<length bs. sys_read E (reads_made s + i) = ReadByte (bs ! i);
    sys_read E (reads_made s + length bs) = r; r = ReadNone \<or> r = ReadError;
    0 \<le> t; t + int (length bs) \<le> RESPONSE_BUFFER_SIZE\<rbrakk>
   \<Longrightarrow> drain E t s =
         Returns (s\<lparr>reads_made := Suc (reads_made s + length bs),
                    response_buffer :=
                      (\<lambda>i. if nat t \<le> i \<and> i < nat t + length bs then bs ! (i - nat t)
                           else response_buffer s i),
                    events := events s @ map (\<lambda>i. Serial_read (t + int i)) [0..<Suc (length bs)]\<rparr>,
                  t + int (length bs) + bytes_of r)"
proof (induction bs arbitrary: s t)
  case Nil
  have fn: "(\<lambda>i. if nat t \<le> i \<and> i < nat t + length ([] :: u8 list) then [] ! (i - nat t)
             else response_buffer s i) = response_buffer s"
    by (rule ext) auto
  from Nil show ?case
    unfolding fn by (subst drain.simps) (auto simp: Let_def emit_def bytes_of_def)
next
  case (Cons b bs)
  have r0: "sys_read E (reads_made s) = ReadByte b"
    using Cons.prems(1) by force
  have t: "0 \<le> t" "t < RESPONSE_BUFFER_SIZE"
    using Cons.prems(4,5) by simp_all
  let ?s' = "(emit [Serial_read t] (s\<lparr>reads_made := Suc (reads_made s)\<rparr>))
               \<lparr>response_buffer :=
                  (response_buffer (emit [Serial_read t] (s\<lparr>reads_made := Suc (reads_made s)\<rparr>)))
                    (nat t := b)\<rparr>"
  have u: "drain E t s = drain E (t + 1) ?s'"
    using r0 t by (subst drain.simps) (simp add: Let_def bytes_of_def)
  have h1: "\<forall>i<length bs. sys_read E (reads_made ?s' + i) = ReadByte (bs ! i)"
    using Cons.prems(1) by (force simp: emit_def)
  have h2: "sys_read E (reads_made ?s' + length bs) = r"
    using Cons.prems(2) by (simp add: emit_def)
  have h5: "t + 1 + int (length bs) \<le> RESPONSE_BUFFER_SIZE"
    using Cons.prems(5) by simp
  have h4: "0 \<le> t + 1" using t by simp
  note ih = Cons.IH [OF h1 h2 Cons.prems(3) h4 h5]
  have f: "(\<lambda>i. if nat (t + 1) \<le> i \<and> i < nat (t + 1) + length bs then bs ! (i - nat (t + 1))
                else response_buffer ?s' i) =
           (\<lambda>i. if nat t \<le> i \<and> i < nat t + length (b # bs) then (b # bs) ! (i - nat t)
                else response_buffer s i)"
  proof
    fix i
    have n: "nat (t + 1) = Suc (nat t)" using t by simp
    show "(if nat (t + 1) \<le> i \<and> i < nat (t + 1) + length bs then bs ! (i - nat (t + 1))
                else response_buffer ?s' i) =
           (if nat t \<le> i \<and> i < nat t + length (b # bs) then (b # bs) ! (i - nat t)
                else response_buffer s i)"
      unfolding n by (auto simp: emit_def nth_Cons' Suc_diff_le)
  qed
  have e: "events ?s' @ map (\<lambda>i. Serial_read (t + 1 + int i)) [0..<Suc (length bs)] =
           events s @ map (\<lambda>i. Serial_read (t + int i)) [0..<Suc (length (b # bs))]"
  proof -
    have "map (\<lambda>i. Serial_read (t + int i)) [0..<Suc (Suc (length bs))] =
          Serial_read t # map (\<lambda>i. Serial_read (t + int (Suc i))) [0..<Suc (length bs)]"
      by (subst map_upt_Suc) simp
    then show ?thesis by (simp add: emit_def add.commute add.left_commute)
  qed
  show ?case
    unfolding u ih f e by (simp add: emit_def)
qed

text \<open>The drain, when the device sends more bytes than the array has room for.\<close>

lemma drain_overrun:
  "\<lbrakk>n = nat (RESPONSE_BUFFER_SIZE - t);
    \<forall>i\<le>n. \<exists>b. sys_read E (reads_made s + i) = ReadByte b;
    0 \<le> t; t \<le> RESPONSE_BUFFER_SIZE\<rbrakk>
   \<Longrightarrow> drain E t s = Overrun"
proof (induction n arbitrary: s t)
  case 0
  then obtain b where "sys_read E (reads_made s) = ReadByte b" by force
  moreover have "\<not> t < RESPONSE_BUFFER_SIZE" using 0 by simp
  ultimately show ?case
    by (subst drain.simps) (simp add: Let_def)
next
  case (Suc n)
  then obtain b where r0: "sys_read E (reads_made s) = ReadByte b" by force
  have t: "0 \<le> t" "t < RESPONSE_BUFFER_SIZE"
    using Suc.prems by simp_all
  let ?s' = "(emit [Serial_read t] (s\<lparr>reads_made := Suc (reads_made s)\<rparr>))
               \<lparr>response_buffer :=
                  (response_buffer (emit [Serial_read t] (s\<lparr>reads_made := Suc (reads_made s)\<rparr>)))
                    (nat t := b)\<rparr>"
  have u: "drain E t s = drain E (t + 1) ?s'"
    using r0 t by (subst drain.simps) (simp add: Let_def bytes_of_def)
  have h1: "n = nat (RESPONSE_BUFFER_SIZE - (t + 1))"
    using Suc.prems(1) by simp
  have h2: "\<forall>i\<le>n. \<exists>b. sys_read E (reads_made ?s' + i) = ReadByte b"
  proof (intro allI impI)
    fix i assume "i \<le> n"
    then have "Suc i \<le> Suc n" by simp
    with Suc.prems(2) obtain b' where "sys_read E (reads_made s + Suc i) = ReadByte b'" by blast
    then show "\<exists>b. sys_read E (reads_made ?s' + i) = ReadByte b"
      by (simp add: emit_def)
  qed
  have "drain E (t + 1) ?s' = Overrun"
    using t by (intro Suc.IH [OF h1 h2]) simp_all
  with u show ?case by simp
qed




lemma drain_idle:
  "sys_read E (reads_made s) = ReadNone \<Longrightarrow>
   drain E 0 s =
     Returns (s\<lparr>reads_made := Suc (reads_made s), events := events s @ [Serial_read 0]\<rparr>, 0)"
  by (subst drain.simps) (simp add: Let_def emit_def bytes_of_def)

lemma command_turn_idle:
  "\<lbrakk>sys_write E (writes_made s) icmd = 1; sys_read E (reads_made s) = ReadNone\<rbrakk> \<Longrightarrow>
   command_turn E icmd s =
     Returns (False,
       s\<lparr>writes_made := Suc (writes_made s), reads_made := Suc (reads_made s),
         events := events s @ [Serial_write icmd, Serial_read 0,
                     Stdout (''No response from ECU.'' @ [NL]), Stdout ''> '']\<rparr>)"
  by (simp add: command_turn_def Let_def emit_def drain_idle)


lemma idle_write: "sys_write idle_env k b = 1"
  by (simp add: idle_env_def)

lemma idle_read: "sys_read idle_env k = ReadNone"
  by (simp add: idle_env_def)

lemma strtoul_100: "strtoul (cstr (''100'' @ [NL, NUL])) 16 = 256"
  by (simp add: cstr_def strtoul_def isspace_def has_0x_def digit_val_def ord_def ULONG_MAX_def)

lemma strtoul_space: "strtoul (cstr ('' '' @ [NL, NUL])) 16 = 0"
  by (simp add: cstr_def strtoul_def isspace_def has_0x_def digit_val_def ord_def ULONG_MAX_def)

lemma strtoul_ff: "strtoul (cstr (''ff'' @ [NL, NUL])) 16 = 255"
  by (simp add: cstr_def strtoul_def isspace_def has_0x_def digit_val_def ord_def ULONG_MAX_def)


text \<open>
  Claim C2, evaluated at the line \<^verbatim>\<open>100\<close>. The value 0x100 that \<^verbatim>\<open>strtoul\<close> returns is cut
  to the eight bits of \<open>icmd\<close> before the range test, which no value of \<open>icmd\<close> fails:
  the session writes the byte 0x00 to the device and drains it, and prints no range
  error.
\<close>

theorem out_of_range_is_written:
  "interactive_step idle_env (''100'' @ [NL]) fresh_session =
     Returns (False,
       \<lparr>writes_made = 1, reads_made = 1, response_buffer = no_junk,
        events = [Serial_write 0x00, Serial_read 0,
                  Stdout (''No response from ECU.'' @ [NL]), Stdout ''> '']\<rparr>)"
proof -
  have "of_nat (strtoul (cstr (''100'' @ [NL, NUL])) 16) = (0x00 :: u8)"
    using strtoul_100 by simp
  then have "interactive_step idle_env (''100'' @ [NL]) fresh_session =
          command_turn idle_env 0x00 fresh_session"
    by (simp add: step_cases)
  then show ?thesis
    by (simp add: command_turn_idle idle_write idle_read) (simp add: fresh_session_def)
qed

text \<open>
  Claim C6 as it is written fails: the line of one space is white space only, and the
  session writes the byte 0x00 to the device and reads from it. The test for a blank
  line looks for a line feed as the first character.
\<close>

theorem whitespace_line_counterexample:
  "interactive_step idle_env ('' '' @ [NL]) fresh_session =
     Returns (False,
       \<lparr>writes_made = 1, reads_made = 1, response_buffer = no_junk,
        events = [Serial_write 0x00, Serial_read 0,
                  Stdout (''No response from ECU.'' @ [NL]), Stdout ''> '']\<rparr>)"
proof -
  have "interactive_step idle_env ('' '' @ [NL]) fresh_session =
          command_turn idle_env 0x00 fresh_session"
    using strtoul_space by (simp add: step_cases)
  then show ?thesis
    by (simp add: command_turn_idle idle_write idle_read) (simp add: fresh_session_def)
qed

text \<open>
  Claim C6, amended. For the empty line, a line feed alone, the session stays in
  PromptWait, prints the prompt again and neither writes to the device nor reads from
  it: one turn adds the prompt to the events and nothing else, and the loop goes on
  with the rest of the input.
\<close>

theorem empty_line_reprompts:
  "interactive_step E [NL] s = Returns (False, emit [Stdout ''> ''] s)
   \<and> interactive_loop E (NL # inp) False s =
       interactive_loop E inp False (emit [Stdout ''> ''] s)"
proof
  show t: "interactive_step E [NL] s = Returns (False, emit [Stdout ''> ''] s)"
    by (simp add: step_cases)
  have "fgets 8 (NL # inp) = Some ([NL], inp)"
    by (simp add: fgets_def eval_nat_numeral)
  with t show "interactive_loop E (NL # inp) False s =
       interactive_loop E inp False (emit [Stdout ''> ''] s)"
    by (subst interactive_loop.simps) simp
qed

text \<open>The amended claim C6 at the device of the examples, for an input of one empty line.\<close>

theorem empty_line_reprompts_witness:
  "interactive_step idle_env [NL] fresh_session =
     Returns (False,
       \<lparr>writes_made = 0, reads_made = 0, response_buffer = no_junk, events = [Stdout ''> '']\<rparr>)
   \<and> interactive_loop idle_env [NL] False fresh_session =
     Returns \<lparr>writes_made = 0, reads_made = 0, response_buffer = no_junk,
              events = [Stdout ''> '']\<rparr>"
proof -
  have "interactive_loop idle_env [] False (emit [Stdout ''> ''] fresh_session) =
          Returns (emit [Stdout ''> ''] fresh_session)"
    by (subst interactive_loop.simps) (simp add: fgets_def)
  with empty_line_reprompts [of idle_env fresh_session "[]"] show ?thesis
    by (simp add: emit_def fresh_session_def)
qed















lemma one_byte_drain:
  "drain one_byte_env 0
     \<lparr>writes_made = Suc 0, reads_made = 0, response_buffer = no_junk, events = [Serial_write 0xFF]\<rparr> =
   Returns (\<lparr>writes_made = Suc 0, reads_made = 2, response_buffer = no_junk(0 := 0xAA),
             events = [Serial_write 0xFF, Serial_read 0, Serial_read 1]\<rparr>, 0)"
proof -
  let ?s = "\<lparr>writes_made = Suc 0, reads_made = 0, response_buffer = no_junk,
             events = [Serial_write 0xFF]\<rparr>"
  have "drain one_byte_env 0 ?s =
         Returns (?s\<lparr>reads_made := Suc (reads_made ?s + length [0xAA :: u8]),
                    response_buffer :=
                      (\<lambda>i. if nat 0 \<le> i \<and> i < nat 0 + length [0xAA :: u8]
                           then [0xAA] ! (i - nat 0) else response_buffer ?s i),
                    events := events ?s
                      @ map (\<lambda>i. Serial_read (0 + int i)) [0..<Suc (length [0xAA :: u8])]\<rparr>,
                  0 + int (length [0xAA :: u8]) + bytes_of ReadError)"
    by (rule drain_run) (simp_all add: one_byte_env_def RESPONSE_BUFFER_SIZE_def)
  moreover have "(\<lambda>i. if i = 0 then 0xAA else no_junk i) = no_junk(0 := 0xAA)"
    by (rule ext) simp
  ultimately show ?thesis
    by (simp add: bytes_of_def nth_Cons' cong: if_cong)
qed

text \<open>
  Claim C4, evaluated at a device that sends one byte and then fails the next read.
  The -1 of the failed read is added to \<^verbatim>\<open>total_bytes_read\<close>, which is 0 after the
  loop: the session prints that the ECU did not respond, though the byte 0xAA was
  collected into the buffer.
\<close>

theorem lost_byte_after_failed_read:
  "interactive_step one_byte_env (''ff'' @ [NL]) fresh_session =
     Returns (False,
       \<lparr>writes_made = 1, reads_made = 2, response_buffer = no_junk(0 := 0xAA),
        events = [Serial_write 0xFF, Serial_read 0, Serial_read 1,
                  Stdout (''No response from ECU.'' @ [NL]), Stdout ''> '']\<rparr>)"
proof -
  have w: "sys_write one_byte_env 0 0xFF = 1"
    by (simp add: one_byte_env_def idle_env_def)
  have "of_nat (strtoul (cstr (''ff'' @ [NL, NUL])) 16) = (0xFF :: u8)"
    using strtoul_ff by simp
  then have "interactive_step one_byte_env (''ff'' @ [NL]) fresh_session =
          command_turn one_byte_env 0xFF fresh_session"
    by (simp add: step_cases)
  then show ?thesis
    by (simp add: command_turn_def w fresh_session_def emit_def one_byte_drain)
qed

text \<open>
  Claim C10. The drain passes the address \<^verbatim>\<open>response_buffer + total_bytes_read\<close> to each
  read, so the byte number \<open>i\<close> is stored at the offset \<open>i\<close>, and it tests no capacity.
  When the device sends at most 16384 bytes before a read returns 0 or -1, every store
  is inside the array and the count left for \<^verbatim>\<open>printbuf\<close> is at most 16384. When the
  device sends 16385 bytes, the last of them is stored outside the array: nothing in
  the loop prevents it.
\<close>

theorem drain_in_bounds:
  "((\<forall>i<length bs. sys_read E (reads_made s + i) = ReadByte (bs ! i))
     \<and> (sys_read E (reads_made s + length bs) = ReadNone
        \<or> sys_read E (reads_made s + length bs) = ReadError)
     \<and> int (length bs) \<le> RESPONSE_BUFFER_SIZE \<longrightarrow>
     (\<exists>s' n. drain E 0 s = Returns (s', n)
        \<and> n \<le> RESPONSE_BUFFER_SIZE
        \<and> (\<forall>i<length bs. response_buffer s' i = bs ! i)
        \<and> events s' = events s @ map (\<lambda>i. Serial_read (int i)) [0..<Suc (length bs)]))
   \<and> ((\<forall>i\<le>16384. \<exists>b. sys_read E (reads_made s + i) = ReadByte b) \<longrightarrow> drain E 0 s = Overrun)"
proof (intro conjI impI)
  assume a: "(\<forall>i<length bs. sys_read E (reads_made s + i) = ReadByte (bs ! i))
     \<and> (sys_read E (reads_made s + length bs) = ReadNone
        \<or> sys_read E (reads_made s + length bs) = ReadError)
     \<and> int (length bs) \<le> RESPONSE_BUFFER_SIZE"
  let ?r = "sys_read E (reads_made s + length bs)"
  have "drain E 0 s =
         Returns (s\<lparr>reads_made := Suc (reads_made s + length bs),
                    response_buffer :=
                      (\<lambda>i. if nat 0 \<le> i \<and> i < nat 0 + length bs then bs ! (i - nat 0)
                           else response_buffer s i),
                    events := events s @ map (\<lambda>i. Serial_read (0 + int i)) [0..<Suc (length bs)]\<rparr>,
                  0 + int (length bs) + bytes_of ?r)"
    using a by (intro drain_run) simp_all
  moreover have "bytes_of ?r \<le> 0"
    using a by (auto simp: bytes_of_def)
  ultimately show "\<exists>s' n. drain E 0 s = Returns (s', n)
        \<and> n \<le> RESPONSE_BUFFER_SIZE
        \<and> (\<forall>i<length bs. response_buffer s' i = bs ! i)
        \<and> events s' = events s @ map (\<lambda>i. Serial_read (int i)) [0..<Suc (length bs)]"
    using a by simp
next
  assume "\<forall>i\<le>16384. \<exists>b. sys_read E (reads_made s + i) = ReadByte b"
  then show "drain E 0 s = Overrun"
    by (intro drain_overrun [of 16384]) (simp_all add: RESPONSE_BUFFER_SIZE_def)
qed

text \<open>
  Claim C10 at a device that sends two bytes and stops, and at a device that never
  stops sending.
\<close>

theorem drain_in_bounds_witness:
  "(\<exists>s' n. drain two_bytes_env 0 fresh_session = Returns (s', n)
      \<and> response_buffer s' 0 = 0x01 \<and> response_buffer s' 1 = 0x02
      \<and> events s' = [Serial_read 0, Serial_read 1, Serial_read 2])
   \<and> drain babbling_env 0 fresh_session = Overrun"
proof
  let ?bs = "[0x01, 0x02 :: u8]"
  have "\<forall>i<length ?bs. sys_read two_bytes_env (reads_made fresh_session + i) = ReadByte (?bs ! i)"
    by (simp add: two_bytes_env_def fresh_session_def less_Suc_eq_0_disj numeral_2_eq_2)
  moreover have "sys_read two_bytes_env (reads_made fresh_session + length ?bs) = ReadNone"
    by (simp add: two_bytes_env_def fresh_session_def)
  moreover have "int (length ?bs) \<le> RESPONSE_BUFFER_SIZE"
    by (simp add: RESPONSE_BUFFER_SIZE_def)
  ultimately obtain s' n where
    "drain two_bytes_env 0 fresh_session = Returns (s', n)"
    "\<forall>i<length ?bs. response_buffer s' i = ?bs ! i"
    "events s' = events fresh_session @ map (\<lambda>i. Serial_read (int i)) [0..<Suc (length ?bs)]"
    using drain_in_bounds [of ?bs two_bytes_env fresh_session] by blast
  then show "\<exists>s' n. drain two_bytes_env 0 fresh_session = Returns (s', n)
      \<and> response_buffer s' 0 = 0x01 \<and> response_buffer s' 1 = 0x02
      \<and> events s' = [Serial_read 0, Serial_read 1, Serial_read 2]"
    by (auto simp: fresh_session_def upt_rec numeral_2_eq_2 numeral_3_eq_3)
next
  have "\<forall>i\<le>16384. \<exists>b. sys_read babbling_env (reads_made fresh_session + i) = ReadByte b"
    by (simp add: babbling_env_def)
  with drain_in_bounds [of "[]" babbling_env fresh_session]
  show "drain babbling_env 0 fresh_session = Overrun"
    by blast
qed


subsection \<open>The exit status\<close>

text \<open>
  For every command but the interactive session the switch leaves a determined flag,
  and \<^verbatim>\<open>main\<close> turns it into the status 0 or -2; a name outside the table gives -1.
\<close>

lemma determined_flag:
  "\<lbrakk>cmd_idx \<noteq> MC_Interactive;
    run_command E cmd_idx read_inf read_loop_count buf tr = Some (Returns (success, tr'))\<rbrakk>
   \<Longrightarrow> \<exists>b. success = Some b"
  by (auto simp: run_command_def flag_def split: if_splits option.splits prod.splits)

lemma exit_status_values:
  "exit_status (Some True) = Some 0 \<and> exit_status (Some False) = Some (- 2)
   \<and> exit_status None = None"
  by (simp add: exit_status_def)

lemma unknown_command_exit:
  "MC_Num_Commands \<le> find_command name 0 \<Longrightarrow>
   main E junk [prog, dev, name] =
     Some (Returns (Some (- 1), [Lib_get_version, Stdout (''Invalid command: '' @ name @ [NL])]))"
  by (simp add: main_def Let_def)

lemma other_commands_exit:
  "\<lbrakk>3 \<le> length argv; find_command (argv ! 2) 0 < MC_Num_Commands;
    find_command (argv ! 2) 0 \<noteq> MC_Interactive;
    main E junk argv = Some (Returns (status, tr))\<rbrakk>
   \<Longrightarrow> status = Some 0 \<or> status = Some (- 2)"
  by (auto simp: main_def Let_def exit_status_def split: if_splits option.splits run.splits
           dest!: determined_flag [rotated])

lemma find_interactive: "find_command ''interactive'' 0 = 10"
  by (simp add: find_command.simps commands_def tolower_def code_of_def ord_def char_of_def bit_Suc_0_iff)

lemma quit_session:
  "interactive_mode quitting_env s =
     Returns (None, s\<lparr>events := events s @ [Malloc 8,
        Stdout (''Enter a command (in hex) or 'quit'.'' @ [NL] @ ''> ''), Free]\<rparr>)"
proof -
  have f: "fgets 8 (''quit'' @ [NL]) = Some (''quit'' @ [NL], [])"
    by (simp add: fgets_def eval_nat_numeral)
  have m: "malloc_ok quitting_env" and i: "stdin quitting_env = ''quit'' @ [NL]"
    by (simp_all add: quitting_env_def idle_env_def)
  have l: "interactive_loop quitting_env (''quit'' @ [NL]) False t = Returns t" for t
    by (subst interactive_loop.simps, simp only: f)
       (simp add: step_cases interactive_loop.simps [of _ _ True])
  show ?thesis
    unfolding interactive_mode_def i l by (simp add: m emit_def)
qed

text \<open>
  Claim C7, evaluated at the command \<^verbatim>\<open>interactive\<close> with an operator who types
  \<^verbatim>\<open>quit\<close>. \<^verbatim>\<open>main\<close> assigns the value of \<^verbatim>\<open>interactive_mode\<close> to \<open>success\<close>, and
  \<^verbatim>\<open>interactive_mode\<close> returns none: no statement determines the exit status of the
  process.
\<close>

theorem interactive_exit_status_undetermined:
  "main quitting_env no_junk [''readmems'', ''/dev/ttyUSB0'', ''interactive''] =
     Some (Returns (None,
       [Lib_get_version, Lib_init, Lib_connect ''/dev/ttyUSB0'', Lib_init_link,
        Stdout (''ECU responded to D0 command with: D0 99 00 03'' @ [NL, NL]),
        Malloc 8, Stdout (''Enter a command (in hex) or 'quit'.'' @ [NL] @ ''> ''), Free,
        Lib_disconnect, Lib_cleanup]))"
proof -
  have c: "lib_connect quitting_env" and k: "lib_init_link quitting_env = Some [0xD0, 0x99, 0x00, 0x03]"
    by (simp_all add: quitting_env_def idle_env_def)
  have h: "hex2 0xD0 = ''D0 ''" "hex2 0x99 = ''99 ''" "hex2 0x00 = ''00 ''" "hex2 0x03 = ''03 ''"
    by (simp_all add: hex2_def hex_digit_def char_of_def bit_Suc_0_iff)
  show ?thesis
    by (simp add: main_def find_interactive c k h run_command_def quit_session exit_status_def
          Let_def)
qed


end
